theory Spec2Isabelle
  imports Complex_Main
begin

unbundle bit_operations_syntax

section \<open>Python values used by the trainer\<close>

text \<open>
  The program is Python (\<^verbatim>\<open>deep_cfr.py\<close>, \<^verbatim>\<open>game_env.py\<close>). Python integers are
  unbounded and are modelled by \<^typ>\<open>int\<close> (or \<^typ>\<open>nat\<close> for a count). Python and
  numpy floating-point numbers are modelled by \<^typ>\<open>real\<close>: every arithmetic
  operation is the exact one, so rounding error and overflow are outside the model, and
  a decimal literal such as \<^verbatim>\<open>0.9\<close> is the rational \<open>9/10\<close>. No real is
  \<^verbatim>\<open>nan\<close> or \<^verbatim>\<open>inf\<close>: the one operation that could produce them, a numpy
  quotient by zero, ends the computation with \<open>NonFinite\<close> instead.
  A one-dimensional numpy array or torch tensor is a \<^typ>\<open>real list\<close>.
  An exception is a value of the type \<open>error\<close>, and a function that can raise has a
  sum type as its result, the exception on the left.
\<close>

datatype error =
    IndexError | KeyError | TypeError | ValueError | ZeroDivisionError
  | NonFinite  \<comment> \<open>not an exception: a numpy quotient by zero, \<^verbatim>\<open>inf\<close> or \<^verbatim>\<open>nan\<close>, which no real models\<close>
  | EnvError   \<comment> \<open>any exception of the game environment\<close>

definition norm_index :: "nat \<Rightarrow> int \<Rightarrow> nat option" where
  \<comment> \<open>The position that index \<open>i\<close> denotes in a sequence of length \<open>n\<close>: Python and
      numpy count a negative index from the end; \<open>None\<close> when it is out of range.\<close>
  "norm_index n i =
     (if 0 \<le> i \<and> i < int n then Some (nat i)
      else if - int n \<le> i \<and> i < 0 then Some (nat (int n + i))
      else None)"

definition py_index :: "'a list \<Rightarrow> int \<Rightarrow> error + 'a" where
  \<comment> \<open>\<^verbatim>\<open>xs[i]\<close> on a list, a string or an array\<close>
  "py_index xs i =
     (case norm_index (length xs) i of None \<Rightarrow> Inl IndexError | Some j \<Rightarrow> Inr (xs ! j))"

definition round_half_even :: "real \<Rightarrow> int" where
  \<comment> \<open>Rounding to the nearest integer, a tie going to the even neighbour.\<close>
  "round_half_even x =
     (let f = \<lfloor>x\<rfloor>; d = x - of_int f
      in if d < 1 / 2 then f else if 1 / 2 < d then f + 1 else if even f then f else f + 1)"

definition py_round :: "real \<Rightarrow> nat \<Rightarrow> real" where
  \<comment> \<open>\<^verbatim>\<open>round(x, nd)\<close> and \<^verbatim>\<open>numpy.round(x, nd)\<close> on an exact number.\<close>
  "py_round x nd = of_int (round_half_even (x * 10 ^ nd)) / 10 ^ nd"

fun sequence_err :: "(error + 'a) list \<Rightarrow> error + 'a list" where
  \<comment> \<open>A list comprehension whose element expression can raise: the first exception wins.\<close>
  "sequence_err [] = Inr []"
| "sequence_err (Inl e # _) = Inl e"
| "sequence_err (Inr x # rs) = (case sequence_err rs of Inl e \<Rightarrow> Inl e | Inr xs \<Rightarrow> Inr (x # xs))"

definition bind_err :: "error + 'a \<Rightarrow> ('a \<Rightarrow> error + 'b) \<Rightarrow> error + 'b" where
  \<comment> \<open>Sequencing: an exception of the first computation skips the rest.\<close>
  "bind_err r f = (case r of Inl e \<Rightarrow> Inl e | Inr x \<Rightarrow> f x)"

section \<open>The card encoding of the deuces library\<close>

text \<open>
  \<^verbatim>\<open>game_env.py\<close> imports \<^verbatim>\<open>Card\<close> and \<^verbatim>\<open>Evaluator\<close> from the third-party library
  deuces. A deuces card is a Python integer: bit \<open>16 + rank\<close> is set, bits 12 to 15 hold
  the suit (spades 1, hearts 2, diamonds 4, clubs 8), bits 8 to 11 hold the rank
  (0 for a deuce up to 12 for an ace) and the low byte holds the prime of the rank.
  \<^verbatim>\<open>Card.new\<close>, \<^verbatim>\<open>Card.get_rank_int\<close> and \<^verbatim>\<open>Card.get_suit_int\<close> are transcribed
  from the library. A value that may be Python's \<^verbatim>\<open>None\<close> instead of a card is an
  \<^typ>\<open>int option\<close>; shifting \<^verbatim>\<open>None\<close> raises \<^verbatim>\<open>TypeError\<close>.
\<close>

type_synonym card = "int option"

definition STR_RANKS :: string where
  "STR_RANKS = ''23456789TJQKA''"

definition CHAR_RANK_TO_INT_RANK :: "(char \<times> int) list" where
  "CHAR_RANK_TO_INT_RANK = zip STR_RANKS [0, 1, 2, 3, 4, 5, 6, 7, 8, 9, 10, 11, 12]"

definition CHAR_SUIT_TO_INT_SUIT :: "(char \<times> int) list" where
  "CHAR_SUIT_TO_INT_SUIT = [(CHR ''s'', 1), (CHR ''h'', 2), (CHR ''d'', 4), (CHR ''c'', 8)]"

definition PRIMES :: "int list" where
  "PRIMES = [2, 3, 5, 7, 11, 13, 17, 19, 23, 29, 31, 37, 41]"

definition dict_get :: "('k \<times> 'v) list \<Rightarrow> 'k \<Rightarrow> error + 'v" where
  \<comment> \<open>\<^verbatim>\<open>d[k]\<close> on a dict: a missing key raises \<^verbatim>\<open>KeyError\<close>.\<close>
  "dict_get d k = (case map_of d k of None \<Rightarrow> Inl KeyError | Some v \<Rightarrow> Inr v)"

definition Card_new :: "string \<Rightarrow> error + int" where
  "Card_new string =
     bind_err (py_index string 0) (\<lambda>rank_char.
     bind_err (py_index string 1) (\<lambda>suit_char.
     bind_err (dict_get CHAR_RANK_TO_INT_RANK rank_char) (\<lambda>rank_int.
     bind_err (dict_get CHAR_SUIT_TO_INT_SUIT suit_char) (\<lambda>suit_int.
     bind_err (py_index PRIMES rank_int) (\<lambda>rank_prime.
       Inr (push_bit 16 (push_bit (nat rank_int) 1) OR push_bit 12 suit_int
            OR push_bit 8 rank_int OR rank_prime))))))"

definition get_rank_int :: "card \<Rightarrow> error + int" where
  "get_rank_int card_int =
     (case card_int of None \<Rightarrow> Inl TypeError | Some c \<Rightarrow> Inr (drop_bit 8 c AND 15))"

definition get_suit_int :: "card \<Rightarrow> error + int" where
  "get_suit_int card_int =
     (case card_int of None \<Rightarrow> Inl TypeError | Some c \<Rightarrow> Inr (drop_bit 12 c AND 15))"

text \<open>
  The five-to-seven card evaluator of deuces is not part of the repository and no claim
  depends on what it computes: it is a parameter. \<open>evaluate ev board hole\<close> is the score
  or the exception of \<^verbatim>\<open>Evaluator.evaluate\<close>, \<open>get_five_card_rank_percentage ev\<close>
  the percentile of a score.
\<close>

record evaluator =
  evaluate :: "card list \<Rightarrow> card list \<Rightarrow> error + int"
  get_five_card_rank_percentage :: "int \<Rightarrow> error + real"

section \<open>HandProcessor (game_env.py)\<close>

definition ranks :: "string list" where
  \<comment> \<open>the list of the thirteen one-character strings \<^verbatim>\<open>'2'\<close>, ..., \<^verbatim>\<open>'9'\<close>, \<^verbatim>\<open>'T'\<close>,
      \<^verbatim>\<open>'J'\<close>, \<^verbatim>\<open>'Q'\<close>, \<^verbatim>\<open>'K'\<close>, \<^verbatim>\<open>'A'\<close>\<close>
  "ranks = map (\<lambda>c. [c]) ''23456789TJQKA''"

definition suits :: "string list" where
  "suits = [''c'', ''d'', ''h'', ''s'']"

definition convert_card :: "int \<Rightarrow> error + card" where
  \<comment> \<open>Only \<^verbatim>\<open>IndexError\<close> is caught (logged, \<^verbatim>\<open>None\<close> returned); any other
      exception of \<^verbatim>\<open>Card.new\<close> propagates.\<close>
  "convert_card idx =
     (if idx = 0 then Inr None
      else
        let rank_idx = (idx - 1) div 4; suit_idx = (idx - 1) mod 4
        in case bind_err (py_index ranks rank_idx) (\<lambda>r.
                bind_err (py_index suits suit_idx) (\<lambda>s. Card_new (r @ s))) of
             Inl e \<Rightarrow> (if e = IndexError then Inr None else Inl e)
           | Inr c \<Rightarrow> Inr (Some c))"

definition estimate_preflop_strength :: "card list \<Rightarrow> error + real" where
  "estimate_preflop_strength hole =
     bind_err (sequence_err (map get_rank_int hole)) (\<lambda>rs.
     let sorted_ranks = sort rs in
     bind_err (py_index hole 0) (\<lambda>c0.
     bind_err (get_suit_int c0) (\<lambda>s0.
     bind_err (py_index hole 1) (\<lambda>c1.
     bind_err (get_suit_int c1) (\<lambda>s1.
     let suited = (s0 = s1) in
     bind_err (py_index sorted_ranks 0) (\<lambda>r0.
     bind_err (py_index sorted_ranks 1) (\<lambda>r1.
       if r0 = r1 then Inr (9 / 10)
       else if r1 - r0 = 1 then (if suited then Inr (7 / 10) else Inr (6 / 10))
       else if suited then Inr (5 / 10)
       else Inr (4 / 10))))))))"

definition get_strength_body :: "evaluator \<Rightarrow> int list \<Rightarrow> int list \<Rightarrow> error + real" where
  \<comment> \<open>The body of the \<^verbatim>\<open>try\<close> block of \<^verbatim>\<open>get_strength\<close>.\<close>
  "get_strength_body ev hole_indices board_indices =
     bind_err (sequence_err (map convert_card (filter (\<lambda>i. 0 < i) hole_indices))) (\<lambda>hole.
     bind_err (sequence_err (map convert_card (filter (\<lambda>i. 0 < i) board_indices))) (\<lambda>board.
       if length board < 3 then estimate_preflop_strength hole
       else
         bind_err (evaluate ev board hole) (\<lambda>score.
         bind_err (get_five_card_rank_percentage ev score) (\<lambda>p.
           Inr (1 - p)))))"

definition get_strength :: "evaluator \<Rightarrow> int list \<Rightarrow> int list \<Rightarrow> real" where
  \<comment> \<open>\<^verbatim>\<open>except Exception\<close>: every exception of the body is logged and becomes 0.0.\<close>
  "get_strength ev hole_indices board_indices =
     (case get_strength_body ev hole_indices board_indices of Inl _ \<Rightarrow> 0 | Inr s \<Rightarrow> s)"

definition card_rank :: "int \<Rightarrow> int" where
  \<comment> \<open>The rank (0 = deuce, 12 = ace) that \<^verbatim>\<open>convert_card\<close> gives card id \<open>idx\<close>.\<close>
  "card_rank idx = (idx - 1) div 4"

definition card_suit :: "int \<Rightarrow> int" where
  "card_suit idx = (idx - 1) mod 4"


definition failing_evaluator :: evaluator where
  \<comment> \<open>An evaluator whose every call raises; it instantiates the parameter in examples.\<close>
  "failing_evaluator =
     \<lparr>evaluate = (\<lambda>board hole. Inl KeyError), get_five_card_rank_percentage = (\<lambda>score. Inl KeyError)\<rparr>"

section \<open>DeepCFR.encode_state (deep_cfr.py)\<close>

definition encode_state :: "evaluator \<Rightarrow> int list \<Rightarrow> real list \<Rightarrow> error + real \<times> real" where
  \<comment> \<open>\<open>community_card_indices\<close> is the field of the environment read by the encoder. The
      two debug messages are f-strings, evaluated whatever the log level: they read
      \<^verbatim>\<open>observation[52]\<close> and \<^verbatim>\<open>observation[53]\<close> first. An exception is logged and
      raised again.\<close>
  "encode_state ev community_card_indices observation =
     bind_err (py_index observation 52) (\<lambda>_.
     bind_err (py_index observation 53) (\<lambda>_.
     let hole_mask = take 52 observation;
         hole_indices = map (\<lambda>i. int i + 1) (filter (\<lambda>i. hole_mask ! i = 1) [0..<length hole_mask]);
         board_indices = community_card_indices;
         hand_strength = get_strength ev hole_indices board_indices
     in
     bind_err (py_index observation 52) (\<lambda>player_0_stack.
     bind_err (py_index observation 53) (\<lambda>player_1_stack.
     let total_pot = 100 - (player_0_stack + player_1_stack)
     in Inr (py_round hand_strength 2, py_round total_pot 1)))))"

section \<open>numpy arithmetic on one-dimensional arrays\<close>

definition np_mul :: "real list \<Rightarrow> real list \<Rightarrow> error + real list" where
  \<comment> \<open>\<^verbatim>\<open>xs * ys\<close>: elementwise, an array of length 1 is broadcast, other shapes do not match.\<close>
  "np_mul xs ys =
     (if length xs = length ys then Inr (map2 (*) xs ys)
      else if length xs = 1 then Inr (map (\<lambda>y. hd xs * y) ys)
      else if length ys = 1 then Inr (map (\<lambda>x. x * hd ys) xs)
      else Inl ValueError)"

definition np_add :: "real list \<Rightarrow> real list \<Rightarrow> error + real list" where
  "np_add xs ys =
     (if length xs = length ys then Inr (map2 (+) xs ys)
      else if length xs = 1 then Inr (map (\<lambda>y. hd xs + y) ys)
      else if length ys = 1 then Inr (map (\<lambda>x. x + hd ys) xs)
      else Inl ValueError)"

definition np_iadd :: "real list \<Rightarrow> real list \<Rightarrow> error + real list" where
  \<comment> \<open>\<^verbatim>\<open>xs += ys\<close>: the new contents of the array \<open>xs\<close>, which keeps its shape.\<close>
  "np_iadd xs ys =
     (if length xs = length ys then Inr (map2 (+) xs ys)
      else if length ys = 1 then Inr (map (\<lambda>x. x + hd ys) xs)
      else Inl ValueError)"

definition np_div :: "real list \<Rightarrow> real \<Rightarrow> error + real list" where
  \<comment> \<open>\<^verbatim>\<open>xs / d\<close> by a scalar. numpy does not raise when \<open>d\<close> is zero: the quotients are
      \<^verbatim>\<open>inf\<close> or \<^verbatim>\<open>nan\<close>, which the model reports as \<open>NonFinite\<close>.\<close>
  "np_div xs d = (if d = 0 then Inl NonFinite else Inr (map (\<lambda>x. x / d) xs))"

definition np_set :: "real list \<Rightarrow> int \<Rightarrow> real \<Rightarrow> error + real list" where
  \<comment> \<open>\<^verbatim>\<open>xs[i] = v\<close>\<close>
  "np_set xs i v =
     (case norm_index (length xs) i of None \<Rightarrow> Inl IndexError | Some j \<Rightarrow> Inr (xs[j := v]))"

section \<open>DeepCFR.get_action_probs (deep_cfr.py)\<close>

text \<open>
  The network and the softmax are torch operations in 32-bit floating point. They are the
  parameter \<open>net\<close>: \<open>net state_tensor\<close> is the array
  \<^verbatim>\<open>F.softmax(net.net(state_tensor.unsqueeze(0)), dim=-1).squeeze().cpu().numpy()\<close>.
  Nothing is assumed about it; in particular its entries may be 0, as an underflowing
  softmax gives.
\<close>

definition get_action_probs ::
    "(real list \<Rightarrow> real list) \<Rightarrow> real list \<Rightarrow> real list \<Rightarrow> error + real list" where
  "get_action_probs net state_tensor legal_mask =
     (let probs = net state_tensor
      in if list_all (\<lambda>m. m = 0) legal_mask then Inr legal_mask
         else
           bind_err (np_mul probs legal_mask) (\<lambda>legal_probs.
           let sum_probs = sum_list legal_probs
           in if sum_probs = 0 then np_div legal_mask (sum_list legal_mask)
              else np_div legal_probs sum_probs))"

definition uniform_over_legal :: "real list \<Rightarrow> real list" where
  \<comment> \<open>The uniform distribution over the legal actions of a mask: \<open>1 / n\<close> on each of the
      \<open>n\<close> legal actions and 0 on the others.\<close>
  "uniform_over_legal legal_mask =
     map (\<lambda>m. if m = 0 then 0 else 1 / real (length (filter (\<lambda>m. m \<noteq> 0) legal_mask))) legal_mask"

section \<open>The trainer's memory (deep_cfr.py)\<close>

text \<open>
  \<^verbatim>\<open>collections.deque(maxlen=n)\<close>: \<^verbatim>\<open>append\<close> adds on the right and, when the
  deque has grown beyond \<open>maxlen\<close>, drops one element on the left.
\<close>

record 'a deque =
  items :: "'a list"
  maxlen :: nat

definition deque_append :: "'a deque \<Rightarrow> 'a \<Rightarrow> 'a deque" where
  "deque_append q x =
     (let ys = items q @ [x]
      in q\<lparr>items := (if maxlen q < length ys then tl ys else ys)\<rparr>)"

text \<open>
  numpy arrays are objects: \<^verbatim>\<open>self.cumulative_regrets[state_key]\<close> is a reference to
  an array, \<^verbatim>\<open>+=\<close> on it changes the array in place, and
  \<^verbatim>\<open>advantage_memory.append((..., self.cumulative_regrets[state_key]))\<close> stores the
  reference, not a copy. So the regret arrays live in an explicit store: \<open>heap\<close> maps an
  address to the contents of the array at that address, the table maps a state key to the
  address of its array, and an entry of the replay buffer holds an address. The arrays of
  the strategy table and the state arrays are never shared, so they are held by value.
\<close>

type_synonym addr = nat
type_synonym state_key = "real list"

record decision =
  state_tensor :: "real list"
  strategy :: "real list"
  action :: int
  rp_self :: real
  rp_opp :: real

record trainer =
  epsilon :: real
  epsilon_decay :: real
  min_epsilon :: real
  iterations :: int
  advantage_memory :: "(real list \<times> addr) deque"
  cumulative_regrets :: "state_key \<rightharpoonup> addr"
  cumulative_strategy :: "state_key \<rightharpoonup> real list \<times> int"
  training_agent :: string
  heap :: "addr \<Rightarrow> real list"
  next_addr :: addr

definition init :: trainer where
  \<comment> \<open>\<^verbatim>\<open>DeepCFR.__init__\<close>\<close>
  "init =
     \<lparr>epsilon = 15 / 100, epsilon_decay = 995 / 1000, min_epsilon = 1 / 100, iterations = 0,
      advantage_memory = \<lparr>items = [], maxlen = 1000000\<rparr>,
      cumulative_regrets = Map.empty, cumulative_strategy = Map.empty,
      training_agent = ''player_0'', heap = (\<lambda>_. []), next_addr = 0\<rparr>"

definition regrets_entry :: "trainer \<Rightarrow> state_key \<Rightarrow> addr \<times> trainer" where
  \<comment> \<open>\<^verbatim>\<open>self.cumulative_regrets[state_key]\<close> on the \<^verbatim>\<open>defaultdict\<close>: a missing key is
      inserted with a new array \<^verbatim>\<open>np.zeros(5)\<close>.\<close>
  "regrets_entry st k =
     (case cumulative_regrets st k of
        Some a \<Rightarrow> (a, st)
      | None \<Rightarrow>
          (next_addr st,
           st\<lparr>cumulative_regrets := (cumulative_regrets st)(k \<mapsto> next_addr st),
              heap := (heap st)(next_addr st := replicate 5 0),
              next_addr := Suc (next_addr st)\<rparr>))"

definition strategy_entry :: "trainer \<Rightarrow> state_key \<Rightarrow> real list \<times> int" where
  \<comment> \<open>\<^verbatim>\<open>self.cumulative_strategy[state_key]\<close>: a missing key starts at zero counts and visits.\<close>
  "strategy_entry st k =
     (case cumulative_strategy st k of Some e \<Rightarrow> e | None \<Rightarrow> (replicate 5 0, 0))"

definition regret_of :: "trainer \<Rightarrow> state_key \<Rightarrow> real list" where
  \<comment> \<open>The cumulative regret vector of a key as a reader of the table sees it.\<close>
  "regret_of st k = heap (snd (regrets_entry st k)) (fst (regrets_entry st k))"

definition buffer_regret :: "trainer \<Rightarrow> nat \<Rightarrow> real list" where
  \<comment> \<open>The regret vector a reader finds in entry \<open>i\<close> of the replay buffer.\<close>
  "buffer_regret st i = heap st (snd (items (advantage_memory st) ! i))"

section \<open>DeepCFR._update_regrets (deep_cfr.py)\<close>

definition state_key_of :: "real list \<Rightarrow> state_key" where
  \<comment> \<open>\<^verbatim>\<open>tuple(state_tensor.cpu().numpy().round(2))\<close>\<close>
  "state_key_of t = map (\<lambda>x. py_round x 2) t"

definition cf_value_of :: "real \<Rightarrow> decision \<Rightarrow> error + real" where
  \<comment> \<open>\<^verbatim>\<open>player_reward * (rp_opp / (rp_self + 1e-8))\<close>; a zero divisor raises.\<close>
  "cf_value_of player_reward d =
     (if rp_self d + 1 / 100000000 = 0 then Inl ZeroDivisionError
      else Inr (player_reward * (rp_opp d / (rp_self d + 1 / 100000000))))"

fun fill_others :: "real \<Rightarrow> real list \<Rightarrow> int \<Rightarrow> int list \<Rightarrow> real list \<Rightarrow> error + real list" where
  \<comment> \<open>The loop \<^verbatim>\<open>for a in range(5): if a != action: immediate_regret[a] = -cf_value * strategy[a]\<close>\<close>
  "fill_others cf_value strat act [] immediate_regret = Inr immediate_regret"
| "fill_others cf_value strat act (a # as) immediate_regret =
     (if a \<noteq> act then
        bind_err (py_index strat a) (\<lambda>p.
        bind_err (np_set immediate_regret a (- cf_value * p)) (\<lambda>ir.
          fill_others cf_value strat act as ir))
      else fill_others cf_value strat act as immediate_regret)"

definition immediate_regret_of :: "real \<Rightarrow> real list \<Rightarrow> int \<Rightarrow> error + real list" where
  "immediate_regret_of cf_value strat act =
     bind_err (py_index strat act) (\<lambda>p.
     bind_err (np_set (replicate 5 0) act (cf_value * (1 - p))) (\<lambda>ir.
       fill_others cf_value strat act [0, 1, 2, 3, 4] ir))"

definition update_decision :: "real \<Rightarrow> trainer \<Rightarrow> decision \<Rightarrow> error + trainer" where
  \<comment> \<open>The body of the loop over the history. The debug messages are f-strings and are
      evaluated: they read \<^verbatim>\<open>state_key[0]\<close>, \<^verbatim>\<open>state_key[1]\<close> and
      \<^verbatim>\<open>strategy[action]\<close>, and the first read of the table inserts a missing key.\<close>
  "update_decision player_reward st d =
     (let state_key = state_key_of (state_tensor d) in
      bind_err (cf_value_of player_reward d) (\<lambda>cf_value.
      bind_err (py_index state_key 0) (\<lambda>_.
      bind_err (py_index state_key 1) (\<lambda>_.
      bind_err (py_index (strategy d) (action d)) (\<lambda>_.
      bind_err (immediate_regret_of cf_value (strategy d) (action d)) (\<lambda>immediate_regret.
      let (a, st1) = regrets_entry st state_key in
      bind_err (np_add (heap st1 a) immediate_regret) (\<lambda>_.
      bind_err (np_iadd (heap st1 a) immediate_regret) (\<lambda>v.
      let st2 = st1\<lparr>heap := (heap st1)(a := v)\<rparr>;
          st3 = st2\<lparr>advantage_memory := deque_append (advantage_memory st2) (state_tensor d, a)\<rparr>;
          (counts, visits) = strategy_entry st3 state_key
      in
      bind_err (np_iadd counts (map (\<lambda>p. p * rp_self d) (strategy d))) (\<lambda>counts'.
        Inr (st3\<lparr>cumulative_strategy :=
                   (cumulative_strategy st3)(state_key \<mapsto> (counts', visits + 1))\<rparr>))))))))))"

fun update_loop :: "real \<Rightarrow> decision list \<Rightarrow> trainer \<Rightarrow> error + trainer" where
  "update_loop player_reward [] st = Inr st"
| "update_loop player_reward (d # ds) st =
     bind_err (update_decision player_reward st d) (update_loop player_reward ds)"

definition player_reward_of :: "trainer \<Rightarrow> (string \<rightharpoonup> real) \<Rightarrow> real" where
  \<comment> \<open>\<^verbatim>\<open>final_rewards.get(self.training_agent, 0)\<close>\<close>
  "player_reward_of st final_rewards =
     (case final_rewards (training_agent st) of None \<Rightarrow> 0 | Some r \<Rightarrow> r)"

definition update_regrets ::
    "trainer \<Rightarrow> decision list \<Rightarrow> (string \<rightharpoonup> real) \<Rightarrow> error + trainer" where
  "update_regrets st history final_rewards =
     (let player_reward = player_reward_of st final_rewards
      in update_loop player_reward history st)"

section \<open>DeepCFR.train (deep_cfr.py)\<close>

text \<open>
  The game loop of \<^verbatim>\<open>_cfr_iteration\<close> plays one hand against the environment with
  sampled actions. What it hands to the regret update is its result: the history of the
  training player's decisions and the final rewards, or an exception. That result is the
  input \<open>episode\<close> of the model, one per iteration; \<^verbatim>\<open>train\<close> runs
  \<^verbatim>\<open>range(iterations)\<close>, one pass per element of the list of episodes. Writing a
  checkpoint changes no field of the trainer.
\<close>

type_synonym episode = "error + decision list \<times> (string \<rightharpoonup> real)"

definition cfr_iteration :: "trainer \<Rightarrow> episode \<Rightarrow> error + trainer" where
  "cfr_iteration st ep =
     bind_err ep (\<lambda>(history, final_rewards). update_regrets st history final_rewards)"

definition decay_once :: "trainer \<Rightarrow> trainer" where
  \<comment> \<open>The assignment \<^verbatim>\<open>self.epsilon = max(self.min_epsilon, self.epsilon * self.epsilon_decay)\<close>\<close>
  "decay_once st = st\<lparr>epsilon := max (min_epsilon st) (epsilon st * epsilon_decay st)\<rparr>"

fun train :: "int \<Rightarrow> episode list \<Rightarrow> trainer \<Rightarrow> error + trainer" where
  \<comment> \<open>\<^verbatim>\<open>self.iterations % save_interval\<close> raises when \<open>save_interval\<close> is 0.\<close>
  "train save_interval [] st = Inr st"
| "train save_interval (ep # eps) st =
     bind_err (cfr_iteration (st\<lparr>iterations := iterations st + 1\<rparr>) ep) (\<lambda>st1.
     let st2 = decay_once st1
     in if save_interval = 0 then Inl ZeroDivisionError
        else train save_interval eps st2)"

section \<open>Well-formed inputs and the regret update as the specification words it\<close>

definition valid_decision :: "decision \<Rightarrow> bool" where
  \<comment> \<open>A decision as the game loop records it: a state of at least the two features, a
      strategy over the five actions, the index of one of them, and a reach probability
      that is not negative.\<close>
  "valid_decision d \<longleftrightarrow>
     2 \<le> length (state_tensor d) \<and> length (strategy d) = 5
     \<and> 0 \<le> action d \<and> action d < 5 \<and> 0 \<le> rp_self d"

definition table_ok :: "trainer \<Rightarrow> bool" where
  \<comment> \<open>What \<^verbatim>\<open>__init__\<close> establishes and every update keeps: each key of the regret
      table owns an allocated array of five entries, no two keys share an array, and each
      count vector of the strategy table has five entries.\<close>
  "table_ok st \<longleftrightarrow>
     (\<forall>k a. cumulative_regrets st k = Some a \<longrightarrow> a < next_addr st \<and> length (heap st a) = 5)
     \<and> (\<forall>k k' a. cumulative_regrets st k = Some a \<and> cumulative_regrets st k' = Some a \<longrightarrow> k = k')
     \<and> (\<forall>k c v. cumulative_strategy st k = Some (c, v) \<longrightarrow> length c = 5)"

definition immediate_regret_spec :: "real \<Rightarrow> real list \<Rightarrow> nat \<Rightarrow> real list" where
  \<comment> \<open>The specification's immediate regret: \<open>counterfactualValue * (1 - distribution[a])\<close>
      at the chosen action, \<open>- counterfactualValue * distribution[a]\<close> at every other one.\<close>
  "immediate_regret_spec counterfactualValue distribution chosenAction =
     map (\<lambda>a. if a = chosenAction then counterfactualValue * (1 - distribution ! a)
              else - counterfactualValue * distribution ! a) [0..<5]"

definition counterfactual_value_spec :: "real \<Rightarrow> decision \<Rightarrow> real" where
  \<comment> \<open>The specification's \<open>reward * (reachOpp / (reachSelf + 1e-8))\<close>\<close>
  "counterfactual_value_spec reward d = reward * (rp_opp d / (rp_self d + 1 / 100000000))"

fun regret_delta :: "real \<Rightarrow> decision list \<Rightarrow> state_key \<Rightarrow> real list" where
  \<comment> \<open>The sum of the specification's immediate regrets of the decisions of a trajectory
      that fall on one state key: a function of the trajectory and the reward alone.\<close>
  "regret_delta reward [] k = replicate 5 0"
| "regret_delta reward (d # ds) k =
     (if state_key_of (state_tensor d) = k
      then map2 (+) (immediate_regret_spec (counterfactual_value_spec reward d) (strategy d)
                       (nat (action d)))
             (regret_delta reward ds k)
      else regret_delta reward ds k)"

definition after_decision :: "real \<Rightarrow> trainer \<Rightarrow> decision \<Rightarrow> trainer" where
  \<comment> \<open>The trainer after the loop body has run on one decision without raising, in closed
      form; \<open>update_decision_valid\<close> below proves that the loop body computes it.\<close>
  "after_decision r st d =
     (let k = state_key_of (state_tensor d);
          ir = immediate_regret_spec (counterfactual_value_spec r d) (strategy d) (nat (action d));
          a = fst (regrets_entry st k);
          st1 = snd (regrets_entry st k);
          counts = fst (strategy_entry st k);
          visits = snd (strategy_entry st k)
      in st1\<lparr>heap := (heap st1)(a := map2 (+) (heap st1 a) ir),
             advantage_memory := deque_append (advantage_memory st1) (state_tensor d, a),
             cumulative_strategy := (cumulative_strategy st1)
                (k \<mapsto> (map2 (+) counts (map (\<lambda>p. p * rp_self d) (strategy d)), visits + 1))\<rparr>)"

definition sample_state :: "real list" where
  \<comment> \<open>Sample inputs for the examples: a state (hand strength 0.9, pot 3), two decisions
      on it, the rewards of one hand, a trainer with one table entry, two episodes.\<close>
  "sample_state = [9 / 10, 3]"

definition first_decision :: decision where
  "first_decision =
     \<lparr>state_tensor = sample_state, strategy = [1/5, 1/5, 1/5, 1/5, 1/5], action = 0,
      rp_self = 1, rp_opp = 1\<rparr>"

definition second_decision :: decision where
  "second_decision =
     \<lparr>state_tensor = sample_state, strategy = [1/5, 1/5, 1/5, 1/5, 1/5], action = 1,
      rp_self = 1/5, rp_opp = 1/2\<rparr>"

definition sample_rewards :: "string \<rightharpoonup> real" where
  "sample_rewards = [''player_0'' \<mapsto> 2, ''player_1'' \<mapsto> - 2]"

definition seeded_trainer :: trainer where
  "seeded_trainer =
     init\<lparr>cumulative_regrets := [sample_state \<mapsto> 0],
          heap := (\<lambda>_. [])(0 := [1, 2, 3, 4, 5]),
          next_addr := 1\<rparr>"

definition sample_episodes :: "episode list" where
  "sample_episodes =
     [Inr ([first_decision, second_decision], sample_rewards), Inr ([], sample_rewards)]"

section \<open>Basic facts\<close>

lemma bind_err_simps [simp]:
  "bind_err (Inl e) f = Inl e" "bind_err (Inr x) f = f x"
  by (simp_all add: bind_err_def)

lemma py_index_in_set: "py_index xs i = Inr x \<Longrightarrow> x \<in> set xs"
  by (auto simp: py_index_def norm_index_def split: if_splits option.splits)

lemma Card_new_rank_suit:
  assumes "0 \<le> r" "r \<le> 12" "0 \<le> s" "s \<le> 3"
  shows "\<exists>c. Card_new (ranks ! nat r @ suits ! nat s) = Inr c
           \<and> get_rank_int (Some c) = Inr r
           \<and> get_suit_int (Some c) = Inr (2 ^ nat (3 - s))"
proof -
  from assms have r: "r = 0 \<or> r = 1 \<or> r = 2 \<or> r = 3 \<or> r = 4 \<or> r = 5 \<or> r = 6
      \<or> r = 7 \<or> r = 8 \<or> r = 9 \<or> r = 10 \<or> r = 11 \<or> r = 12"
    by presburger
  from assms have s: "s = 0 \<or> s = 1 \<or> s = 2 \<or> s = 3"
    by presburger
  from r s show ?thesis
    by (elim disjE; simp add: Card_new_def ranks_def suits_def py_index_def norm_index_def dict_get_def
        CHAR_RANK_TO_INT_RANK_def CHAR_SUIT_TO_INT_SUIT_def STR_RANKS_def PRIMES_def
        get_rank_int_def get_suit_int_def)
qed

lemma Card_new_total:
  assumes "r \<in> set ranks" "s \<in> set suits"
  shows "\<exists>c. Card_new (r @ s) = Inr c"
proof -
  from assms(1) have r: "r = ''2'' \<or> r = ''3'' \<or> r = ''4'' \<or> r = ''5'' \<or> r = ''6''
     \<or> r = ''7'' \<or> r = ''8'' \<or> r = ''9'' \<or> r = ''T'' \<or> r = ''J'' \<or> r = ''Q''
     \<or> r = ''K'' \<or> r = ''A''"
    by (simp add: ranks_def)
  from assms(2) have s: "s = ''c'' \<or> s = ''d'' \<or> s = ''h'' \<or> s = ''s''"
    by (simp add: suits_def)
  from r s show ?thesis
    by (elim disjE; simp add: Card_new_def py_index_def norm_index_def dict_get_def
        CHAR_RANK_TO_INT_RANK_def CHAR_SUIT_TO_INT_SUIT_def STR_RANKS_def PRIMES_def)
qed

lemma convert_card_total: "\<exists>c. convert_card idx = Inr c"
proof (cases "idx = 0")
  case True then show ?thesis by (simp add: convert_card_def)
next
  case False
  show ?thesis
  proof (cases "py_index ranks ((idx - 1) div 4)")
    case (Inl e) with False show ?thesis by (simp add: convert_card_def py_index_def norm_index_def Let_def split: if_splits)
  next
    case r: (Inr r)
    show ?thesis
    proof (cases "py_index suits ((idx - 1) mod 4)")
      case (Inl e) with False r show ?thesis by (simp add: convert_card_def py_index_def norm_index_def Let_def split: if_splits)
    next
      case s: (Inr s)
      from Card_new_total[OF py_index_in_set[OF r] py_index_in_set[OF s]]
      obtain c where "Card_new (r @ s) = Inr c" by blast
      with False r s show ?thesis by (simp add: convert_card_def Let_def)
    qed
  qed
qed

lemma convert_card_valid:
  assumes "1 \<le> idx" "idx \<le> 52"
  shows "\<exists>c. convert_card idx = Inr (Some c)
           \<and> get_rank_int (Some c) = Inr (card_rank idx)
           \<and> get_suit_int (Some c) = Inr (2 ^ nat (3 - card_suit idx))"
proof -
  let ?r = "(idx - 1) div 4" and ?s = "(idx - 1) mod 4"
  from assms have r: "0 \<le> ?r" "?r \<le> 12" by auto
  have s: "0 \<le> ?s" "?s \<le> 3" by auto
  from Card_new_rank_suit[OF r s] obtain c where
    c: "Card_new (ranks ! nat ?r @ suits ! nat ?s) = Inr c"
       "get_rank_int (Some c) = Inr ?r" "get_suit_int (Some c) = Inr (2 ^ nat (3 - ?s))"
    by blast
  have "py_index ranks ?r = Inr (ranks ! nat ?r)"
    using r by (simp add: py_index_def norm_index_def ranks_def)
  moreover have "py_index suits ?s = Inr (suits ! nat ?s)"
    using s by (simp add: py_index_def norm_index_def suits_def)
  ultimately have "convert_card idx = Inr (Some c)"
    using assms c(1) by (simp add: convert_card_def Let_def)
  with c show ?thesis by (simp add: card_rank_def card_suit_def)
qed

lemma sequence_err_convert_card:
  "\<exists>cs. sequence_err (map convert_card xs) = Inr cs \<and> length cs = length xs"
proof (induction xs)
  case Nil show ?case by simp
next
  case (Cons x xs)
  from convert_card_total obtain c where "convert_card x = Inr c" by blast
  with Cons show ?case by auto
qed

lemma pow2_suit_eq:
  "0 \<le> a \<Longrightarrow> a \<le> 3 \<Longrightarrow> 0 \<le> b \<Longrightarrow> b \<le> 3 \<Longrightarrow> ((2::int) ^ nat (3 - a) = 2 ^ nat (3 - b)) = (a = b)"
  by (auto simp: power_inject_exp)

lemma convert_card_above:
  assumes "52 < idx"
  shows "convert_card idx = Inr None"
proof -
  from assms have "13 \<le> (idx - 1) div 4" by simp
  then have "py_index ranks ((idx - 1) div 4) = Inl IndexError"
    by (simp add: py_index_def norm_index_def ranks_def)
  with assms show ?thesis by (simp add: convert_card_def Let_def)
qed

lemma get_rank_int_error: "get_rank_int c = Inl e \<Longrightarrow> e = TypeError"
  by (cases c) (simp_all add: get_rank_int_def)

lemma sequence_err_ranks_None:
  "None \<in> set cs \<Longrightarrow> sequence_err (map get_rank_int cs) = Inl TypeError"
proof (induction cs)
  case Nil then show ?case by simp
next
  case (Cons c cs)
  show ?case
  proof (cases c)
    case None then show ?thesis by (simp add: get_rank_int_def)
  next
    case (Some x)
    with Cons show ?thesis by (simp add: get_rank_int_def)
  qed
qed

lemma sequence_err_Inr:
  "sequence_err rs = Inr xs \<Longrightarrow> rs = map Inr xs"
proof (induction rs arbitrary: xs)
  case Nil then show ?case by simp
next
  case (Cons r rs)
  then show ?case by (cases r) (auto split: sum.splits)
qed

lemma py_index_nat:
  "py_index xs (int n) = (if n < length xs then Inr (xs ! n) else Inl IndexError)"
  by (simp add: py_index_def norm_index_def)

lemma round_half_even_0: "py_round 0 nd = 0"
  by (simp add: py_round_def round_half_even_def)

lemma encode_state_short:
  "length observation < 54 \<Longrightarrow> encode_state ev b observation = Inl IndexError"
  using py_index_nat[of observation 52] py_index_nat[of observation 53]
  by (auto simp: encode_state_def)

lemma encode_state_long:
  "54 \<le> length observation \<Longrightarrow> encode_state ev b observation =
     Inr (py_round (get_strength ev
            (map (\<lambda>i. int i + 1) (filter (\<lambda>i. take 52 observation ! i = 1) [0..<length (take 52 observation)])) b) 2,
          py_round (100 - (observation ! 52 + observation ! 53)) 1)"
  using py_index_nat[of observation 52] py_index_nat[of observation 53]
  by (auto simp: encode_state_def Let_def)

lemma get_strength_no_hole:
  assumes "length (filter (\<lambda>i. 0 < i) b) < 3"
  shows "get_strength ev [] b = 0"
proof -
  obtain board where board: "sequence_err (map convert_card (filter (\<lambda>i. 0 < i) b)) = Inr board"
    "length board = length (filter (\<lambda>i. 0 < i) b)"
    using sequence_err_convert_card by blast
  with assms show ?thesis
    by (simp add: get_strength_def get_strength_body_def estimate_preflop_strength_def
        py_index_def norm_index_def)
qed

lemma sum_list_divide: "sum_list (map (\<lambda>x. x / d) xs) = sum_list xs / (d::real)"
  by (induction xs) (simp_all add: add_divide_distrib)

lemma mask_sum_count:
  "set legal_mask \<subseteq> {0, 1 :: real} \<Longrightarrow>
     sum_list legal_mask = real (length (filter (\<lambda>m. m \<noteq> 0) legal_mask))"
  by (induction legal_mask) auto

lemma mask_sum_pos:
  assumes "set legal_mask \<subseteq> {0, 1 :: real}" and "\<exists>m\<in>set legal_mask. m \<noteq> 0"
  shows "0 < sum_list legal_mask"
proof -
  from assms(2) have "filter (\<lambda>m. m \<noteq> 0) legal_mask \<noteq> []"
    by (simp add: filter_empty_conv)
  then have "0 < length (filter (\<lambda>m. m \<noteq> 0) legal_mask)" by simp
  with mask_sum_count[OF assms(1)] show ?thesis by simp
qed

lemma mask_div_uniform:
  assumes "set legal_mask \<subseteq> {0, 1 :: real}"
  shows "map (\<lambda>m. m / sum_list legal_mask) legal_mask = uniform_over_legal legal_mask"
  unfolding uniform_over_legal_def mask_sum_count[OF assms]
  using assms by (intro map_cong refl) auto

lemma get_action_probs_cases:
  assumes "\<exists>m\<in>set legal_mask. m \<noteq> 0"
    and "length (net state) = length legal_mask"
  shows "get_action_probs net state legal_mask =
     (let legal_probs = map2 (*) (net state) legal_mask
      in if sum_list legal_probs = 0 then np_div legal_mask (sum_list legal_mask)
         else Inr (map (\<lambda>x. x / sum_list legal_probs) legal_probs))"
proof -
  from assms(1) have "\<not> list_all (\<lambda>m. m = 0) legal_mask"
    by (auto simp: list_all_iff)
  with assms(2) show ?thesis
    by (simp add: get_action_probs_def np_mul_def np_div_def Let_def)
qed

lemma length5_cases:
  assumes "length (xs :: 'a list) = 5"
  obtains a b c d e where "xs = [a, b, c, d, e]"
  using assms by (auto simp: length_Suc_conv eval_nat_numeral)

lemma upt5: "[0..<5] = [0, 1, 2, 3, 4::nat]"
  by code_simp

lemma immediate_regret_of_valid:
  assumes "length strat = 5" and "0 \<le> act" and "act < 5"
  shows "immediate_regret_of cf strat act = Inr (immediate_regret_spec cf strat (nat act))"
proof -
  from assms(1) obtain a b c d e where strat: "strat = [a, b, c, d, e]"
    by (rule length5_cases)
  from assms(2,3) have "act = 0 \<or> act = 1 \<or> act = 2 \<or> act = 3 \<or> act = 4"
    by presburger
  then show ?thesis
    by (elim disjE; simp add: strat immediate_regret_of_def immediate_regret_spec_def upt5
        py_index_def norm_index_def np_set_def eval_nat_numeral)
qed

lemma immediate_regret_spec_length [simp]: "length (immediate_regret_spec cf strat n) = 5"
  by (simp add: immediate_regret_spec_def)

lemma immediate_regret_spec_nth:
  "a < 5 \<Longrightarrow> immediate_regret_spec cf strat n ! a
     = (if a = n then cf * (1 - strat ! a) else - cf * strat ! a)"
  unfolding immediate_regret_spec_def by (subst nth_map) simp_all

lemma cf_value_of_valid:
  "0 \<le> rp_self d \<Longrightarrow> cf_value_of r d = Inr (counterfactual_value_spec r d)"
  by (simp add: cf_value_of_def counterfactual_value_spec_def add_nonneg_eq_0_iff)

lemma regrets_entry_length:
  "table_ok st \<Longrightarrow> length (heap (snd (regrets_entry st k)) (fst (regrets_entry st k))) = 5"
  by (auto simp: regrets_entry_def table_ok_def split: option.splits)

lemma strategy_entry_length:
  "table_ok st \<Longrightarrow> length (fst (strategy_entry st k)) = 5"
  by (auto simp: strategy_entry_def table_ok_def split: option.splits)

lemma regrets_entry_strategy [simp]:
  "cumulative_strategy (snd (regrets_entry st k)) = cumulative_strategy st"
  by (simp add: regrets_entry_def split: option.splits)

lemma strategy_entry_heap [simp]: "strategy_entry (st\<lparr>heap := h\<rparr>) k = strategy_entry st k"
  by (simp add: strategy_entry_def)

lemma strategy_entry_memory [simp]:
  "strategy_entry (st\<lparr>advantage_memory := m\<rparr>) k = strategy_entry st k"
  by (simp add: strategy_entry_def)

lemma strategy_entry_regrets_entry [simp]:
  "strategy_entry (snd (regrets_entry st k')) k = strategy_entry st k"
  by (simp add: strategy_entry_def)

lemma update_decision_valid:
  assumes "valid_decision d" and "table_ok st"
  shows "update_decision r st d = Inr (after_decision r st d)"
proof -
  let ?k = "state_key_of (state_tensor d)"
  from assms(1) have v: "2 \<le> length (state_tensor d)" "length (strategy d) = 5"
    "0 \<le> action d" "action d < 5" "0 \<le> rp_self d"
    by (simp_all add: valid_decision_def)
  have k0: "py_index ?k 0 = Inr (?k ! 0)" and k1: "py_index ?k 1 = Inr (?k ! 1)"
    using v(1) by (auto simp: py_index_def norm_index_def state_key_of_def)
  have sa: "py_index (strategy d) (action d) = Inr (strategy d ! nat (action d))"
    using v(2,3,4) by (simp add: py_index_def norm_index_def)
  note la = regrets_entry_length[OF assms(2), of ?k]
  note lc = strategy_entry_length[OF assms(2), of ?k]
  show ?thesis
    unfolding update_decision_def after_decision_def Let_def
    by (simp add: split_beta cf_value_of_valid[OF v(5)] k0 k1 sa immediate_regret_of_valid[OF v(2,3,4)]
        la lc v(2) np_add_def np_iadd_def)
qed

lemma regret_of_alt:
  "regret_of st k = (case cumulative_regrets st k of None \<Rightarrow> replicate 5 0 | Some a \<Rightarrow> heap st a)"
  by (simp add: regret_of_def regrets_entry_def split: option.splits)

lemma regret_of_length: "table_ok st \<Longrightarrow> length (regret_of st k) = 5"
  by (auto simp: regret_of_alt table_ok_def split: option.splits)

lemma entry_addr_alt:
  "fst (regrets_entry st k) = (case cumulative_regrets st k of None \<Rightarrow> next_addr st | Some a \<Rightarrow> a)"
  by (simp add: regrets_entry_def split: option.splits)

lemma after_regrets:
  "cumulative_regrets (after_decision r st d)
     = (cumulative_regrets st)(state_key_of (state_tensor d) \<mapsto>
          fst (regrets_entry st (state_key_of (state_tensor d))))"
  by (auto simp: after_decision_def Let_def regrets_entry_def split: option.splits)

lemma after_heap:
  "heap (after_decision r st d)
     = (heap st)(fst (regrets_entry st (state_key_of (state_tensor d))) :=
          map2 (+) (regret_of st (state_key_of (state_tensor d)))
            (immediate_regret_spec (counterfactual_value_spec r d) (strategy d) (nat (action d))))"
  by (auto simp: after_decision_def Let_def regrets_entry_def regret_of_alt split: option.splits)

lemma after_next_addr:
  "next_addr (after_decision r st d)
     = (case cumulative_regrets st (state_key_of (state_tensor d)) of
          None \<Rightarrow> Suc (next_addr st) | Some a \<Rightarrow> next_addr st)"
  by (auto simp: after_decision_def Let_def regrets_entry_def split: option.splits)

lemma after_strategy:
  "cumulative_strategy (after_decision r st d)
     = (cumulative_strategy st)(state_key_of (state_tensor d) \<mapsto>
         (map2 (+) (fst (strategy_entry st (state_key_of (state_tensor d))))
            (map (\<lambda>p. p * rp_self d) (strategy d)),
          snd (strategy_entry st (state_key_of (state_tensor d))) + 1))"
  by (simp add: after_decision_def Let_def)

lemma after_memory:
  "advantage_memory (after_decision r st d)
     = deque_append (advantage_memory st)
         (state_tensor d, fst (regrets_entry st (state_key_of (state_tensor d))))"
  by (auto simp: after_decision_def Let_def regrets_entry_def split: option.splits)

lemma after_params [simp]:
  "epsilon (after_decision r st d) = epsilon st"
  "epsilon_decay (after_decision r st d) = epsilon_decay st"
  "min_epsilon (after_decision r st d) = min_epsilon st"
  "iterations (after_decision r st d) = iterations st"
  "training_agent (after_decision r st d) = training_agent st"
  by (auto simp: after_decision_def Let_def regrets_entry_def split: option.splits)

lemma after_regret_of:
  assumes "table_ok st"
  shows "regret_of (after_decision r st d) k =
     (if k = state_key_of (state_tensor d)
      then map2 (+) (regret_of st k)
             (immediate_regret_spec (counterfactual_value_spec r d) (strategy d) (nat (action d)))
      else regret_of st k)"
proof (cases "k = state_key_of (state_tensor d)")
  case True
  then show ?thesis by (simp add: regret_of_alt[of "after_decision r st d"] after_regrets after_heap)
next
  case False
  show ?thesis
  proof (cases "cumulative_regrets st k")
    case None
    with False show ?thesis by (simp add: regret_of_alt after_regrets)
  next
    case (Some a')
    with assms have lt: "a' < next_addr st" by (auto simp: table_ok_def)
    have "a' \<noteq> fst (regrets_entry st (state_key_of (state_tensor d)))"
    proof (cases "cumulative_regrets st (state_key_of (state_tensor d))")
      case None
      with lt show ?thesis by (simp add: entry_addr_alt)
    next
      case (Some a)
      with assms \<open>cumulative_regrets st k = Some a'\<close> False show ?thesis
        by (auto simp: entry_addr_alt table_ok_def)
    qed
    with Some False show ?thesis by (simp add: regret_of_alt after_regrets after_heap)
  qed
qed

lemma after_table_ok:
  assumes "table_ok st" and "length (strategy d) = 5"
  shows "table_ok (after_decision r st d)"
proof -
  let ?k = "state_key_of (state_tensor d)"
  let ?a = "fst (regrets_entry st ?k)"
  have a_lt: "?a < next_addr (after_decision r st d)"
    using assms(1) by (auto simp: entry_addr_alt after_next_addr table_ok_def split: option.splits)
  have mono: "next_addr st \<le> next_addr (after_decision r st d)"
    by (simp add: after_next_addr split: option.splits)
  have fresh: "cumulative_regrets st k' = Some ?a \<Longrightarrow> k' = ?k" for k'
    using assms(1) by (auto simp: entry_addr_alt table_ok_def split: option.splits)
  have len: "length (map2 (+) (regret_of st ?k)
      (immediate_regret_spec (counterfactual_value_spec r d) (strategy d) (nat (action d)))) = 5"
    using regret_of_length[OF assms(1), of ?k] by simp
  have c1: "\<forall>k a. cumulative_regrets (after_decision r st d) k = Some a \<longrightarrow>
      a < next_addr (after_decision r st d) \<and> length (heap (after_decision r st d) a) = 5"
  proof (intro allI impI)
    fix k a
    assume h: "cumulative_regrets (after_decision r st d) k = Some a"
    show "a < next_addr (after_decision r st d) \<and> length (heap (after_decision r st d) a) = 5"
    proof (cases "a = ?a")
      case True
      with a_lt len show ?thesis by (simp add: after_heap)
    next
      case False
      with h have "cumulative_regrets st k = Some a"
        by (auto simp: after_regrets split: if_splits)
      with assms(1) have "a < next_addr st" "length (heap st a) = 5"
        by (auto simp: table_ok_def)
      with mono False show ?thesis by (simp add: after_heap)
    qed
  qed
  have c2: "\<forall>k k' a. cumulative_regrets (after_decision r st d) k = Some a
      \<and> cumulative_regrets (after_decision r st d) k' = Some a \<longrightarrow> k = k'"
    using assms(1) fresh
    by (auto simp: after_regrets table_ok_def split: if_splits)
  have c3: "\<forall>k c v. cumulative_strategy (after_decision r st d) k = Some (c, v) \<longrightarrow> length c = 5"
    using assms strategy_entry_length[OF assms(1), of ?k]
    by (auto simp: after_strategy table_ok_def split: if_splits)
  from c1 c2 c3 show ?thesis unfolding table_ok_def by blast
qed

lemma map2_add_assoc:
  "map2 (+) (map2 (+) a b) c = map2 (+) a (map2 (+) b (c :: real list))"
  by (rule nth_equalityI) (auto simp: add.assoc)

lemma map2_add_zero: "length a = 5 \<Longrightarrow> map2 (+) a (replicate 5 0) = (a :: real list)"
  by (rule nth_equalityI) auto

lemma map2_sub_add:
  "length a = length d \<Longrightarrow> map2 (-) (map2 (+) a d) a = (d :: real list)"
  by (rule nth_equalityI) auto

lemma regret_delta_length [simp]: "length (regret_delta r ds k) = 5"
  by (induction ds) simp_all

lemma update_loop_regret:
  assumes "table_ok st" and "\<forall>d\<in>set ds. valid_decision d"
  shows "\<exists>t. update_loop r ds st = Inr t \<and> table_ok t
           \<and> (\<forall>k. regret_of t k = map2 (+) (regret_of st k) (regret_delta r ds k))"
  using assms
proof (induction ds arbitrary: st)
  case Nil
  then show ?case by (simp add: map2_add_zero regret_of_length)
next
  case (Cons d ds)
  let ?s = "after_decision r st d"
  from Cons.prems have vd: "valid_decision d" and rest: "\<forall>d\<in>set ds. valid_decision d" by simp_all
  have step: "update_decision r st d = Inr ?s"
    using vd Cons.prems(1) by (rule update_decision_valid)
  from vd have "length (strategy d) = 5" by (simp add: valid_decision_def)
  with Cons.prems(1) have ok: "table_ok ?s" by (rule after_table_ok)
  from Cons.IH[OF ok rest] obtain t where
    t: "update_loop r ds ?s = Inr t" "table_ok t"
       "\<forall>k. regret_of t k = map2 (+) (regret_of ?s k) (regret_delta r ds k)" by blast
  have "regret_of t k = map2 (+) (regret_of st k) (regret_delta r (d # ds) k)" for k
    using t(3) by (simp add: after_regret_of[OF Cons.prems(1)] map2_add_assoc)
  with step t(1,2) show ?case by simp
qed

lemma bind_err_InrE:
  assumes "bind_err m f = Inr y"
  obtains x where "m = Inr x" and "f x = Inr y"
  using assms by (cases m) simp_all

lemma regrets_entry_frame [simp]:
  "epsilon (snd (regrets_entry st k)) = epsilon st"
  "epsilon_decay (snd (regrets_entry st k)) = epsilon_decay st"
  "min_epsilon (snd (regrets_entry st k)) = min_epsilon st"
  "iterations (snd (regrets_entry st k)) = iterations st"
  "training_agent (snd (regrets_entry st k)) = training_agent st"
  "advantage_memory (snd (regrets_entry st k)) = advantage_memory st"
  by (simp_all add: regrets_entry_def split: option.splits)

lemma update_decision_frame:
  assumes "update_decision r st d = Inr st'"
  shows "epsilon st' = epsilon st \<and> epsilon_decay st' = epsilon_decay st
       \<and> min_epsilon st' = min_epsilon st \<and> iterations st' = iterations st
       \<and> training_agent st' = training_agent st
       \<and> advantage_memory st' = deque_append (advantage_memory st)
            (state_tensor d, fst (regrets_entry st (state_key_of (state_tensor d))))"
  using assms unfolding update_decision_def Let_def split_beta
  by (elim bind_err_InrE) auto

lemma deque_append_bounded:
  "length (items q) \<le> maxlen q \<Longrightarrow> length (items (deque_append q x)) \<le> maxlen q"
  by (auto simp: deque_append_def Let_def)

lemma deque_append_maxlen [simp]: "maxlen (deque_append q x) = maxlen q"
  by (simp add: deque_append_def Let_def)

lemma update_loop_frame:
  assumes "update_loop r ds st = Inr st'"
  shows "epsilon st' = epsilon st \<and> epsilon_decay st' = epsilon_decay st
       \<and> min_epsilon st' = min_epsilon st \<and> iterations st' = iterations st
       \<and> training_agent st' = training_agent st
       \<and> maxlen (advantage_memory st') = maxlen (advantage_memory st)
       \<and> (length (items (advantage_memory st)) \<le> maxlen (advantage_memory st) \<longrightarrow>
            length (items (advantage_memory st')) \<le> maxlen (advantage_memory st))"
  using assms
proof (induction ds arbitrary: st)
  case Nil
  then show ?case by simp
next
  case (Cons d ds)
  from Cons.prems obtain s where s: "update_decision r st d = Inr s" "update_loop r ds s = Inr st'"
    by (auto elim: bind_err_InrE)
  from update_decision_frame[OF s(1)] Cons.IH[OF s(2)] show ?case
    by (auto simp: deque_append_bounded)
qed

lemma update_loop_append:
  "update_loop r (xs @ ys) st = bind_err (update_loop r xs st) (update_loop r ys)"
proof (induction xs arbitrary: st)
  case Nil show ?case by simp
next
  case (Cons x xs)
  then show ?case by (cases "update_decision r st x") simp_all
qed

lemma update_regrets_alt:
  "update_regrets st history final_rewards
     = update_loop (player_reward_of st final_rewards) history st"
  by (simp add: update_regrets_def Let_def)

lemma table_ok_init: "table_ok init"
  by (simp add: table_ok_def init_def)

lemma valid_first_decision: "valid_decision first_decision"
  by (simp add: valid_decision_def first_decision_def sample_state_def)

lemma valid_second_decision: "valid_decision second_decision"
  by (simp add: valid_decision_def second_decision_def sample_state_def)

lemma table_ok_seeded: "table_ok seeded_trainer"
  by (simp add: table_ok_def seeded_trainer_def init_def)

lemma sample_key: "state_key_of sample_state = sample_state"
  by (simp add: state_key_of_def sample_state_def py_round_def round_half_even_def)

lemma decay_closed_form:
  "((\<lambda>e. max (1 / 100) (e * (995 / 1000))) ^^ n) (15 / 100)
     = max (1 / 100) (15 / 100 * (995 / 1000) ^ n :: real)"
proof (induction n)
  case 0
  show ?case by simp
next
  case (Suc n)
  let ?x = "15 / 100 * (995 / 1000) ^ n :: real"
  have "max (1 / 100) (max (1 / 100) ?x * (995 / 1000)) = max (1 / 100) (?x * (995 / 1000))"
  proof (cases "1 / 100 \<le> ?x")
    case True
    then show ?thesis by (simp add: max_def)
  next
    case False
    then have "?x * (995 / 1000) \<le> 1 / 100"
      by (simp add: max_def)
    with False show ?thesis by (simp add: max_def)
  qed
  with Suc show ?case by (simp add: mult.assoc)
qed

lemma cfr_iteration_frame:
  assumes "cfr_iteration st ep = Inr st'"
  shows "epsilon st' = epsilon st \<and> epsilon_decay st' = epsilon_decay st
       \<and> min_epsilon st' = min_epsilon st \<and> iterations st' = iterations st
       \<and> training_agent st' = training_agent st
       \<and> maxlen (advantage_memory st') = maxlen (advantage_memory st)
       \<and> (length (items (advantage_memory st)) \<le> maxlen (advantage_memory st) \<longrightarrow>
            length (items (advantage_memory st')) \<le> maxlen (advantage_memory st))"
proof -
  from assms obtain history final_rewards where
    "update_regrets st history final_rewards = Inr st'"
    by (cases ep) (auto simp: cfr_iteration_def)
  then have "update_loop (player_reward_of st final_rewards) history st = Inr st'"
    by (simp add: update_regrets_alt)
  then show ?thesis by (rule update_loop_frame)
qed

lemma train_frame:
  assumes "train save_interval episodes st = Inr st'"
  shows "epsilon st' = ((\<lambda>e. max (min_epsilon st) (e * epsilon_decay st)) ^^ length episodes) (epsilon st)
       \<and> epsilon_decay st' = epsilon_decay st \<and> min_epsilon st' = min_epsilon st
       \<and> iterations st' = iterations st + int (length episodes)
       \<and> maxlen (advantage_memory st') = maxlen (advantage_memory st)
       \<and> (length (items (advantage_memory st)) \<le> maxlen (advantage_memory st) \<longrightarrow>
            length (items (advantage_memory st')) \<le> maxlen (advantage_memory st))"
  using assms
proof (induction episodes arbitrary: st)
  case Nil
  then show ?case by simp
next
  case (Cons ep eps)
  from Cons.prems obtain s where
    s: "cfr_iteration (st\<lparr>iterations := iterations st + 1\<rparr>) ep = Inr s"
    and t: "train save_interval eps (decay_once s) = Inr st'"
    by (auto elim!: bind_err_InrE simp: Let_def split: if_splits)
  note f = cfr_iteration_frame[OF s]
  note ih = Cons.IH[OF t]
  have e: "epsilon (decay_once s) = max (min_epsilon st) (epsilon st * epsilon_decay st)"
    using f by (simp add: decay_once_def)
  have p: "min_epsilon (decay_once s) = min_epsilon st" "epsilon_decay (decay_once s) = epsilon_decay st"
    "iterations (decay_once s) = iterations st + 1"
    "advantage_memory (decay_once s) = advantage_memory s"
    using f by (simp_all add: decay_once_def)
  let ?f = "\<lambda>e. max (min_epsilon st) (e * epsilon_decay st)"
  have fp: "(?f ^^ length (ep # eps)) (epsilon st)
      = (?f ^^ length eps) (max (min_epsilon st) (epsilon st * epsilon_decay st))"
    using funpow_swap1[of ?f "length eps" "epsilon st"] by simp
  from ih have "epsilon st'
      = (?f ^^ length eps) (max (min_epsilon st) (epsilon st * epsilon_decay st))"
    unfolding e p by simp
  then have eps: "epsilon st' = (?f ^^ length (ep # eps)) (epsilon st)"
    by (simp only: fp)
  from ih have rest: "epsilon_decay st' = epsilon_decay st \<and> min_epsilon st' = min_epsilon st
       \<and> iterations st' = iterations st + int (length (ep # eps))
       \<and> maxlen (advantage_memory st') = maxlen (advantage_memory st)
       \<and> (length (items (advantage_memory st)) \<le> maxlen (advantage_memory st) \<longrightarrow>
            length (items (advantage_memory st')) \<le> maxlen (advantage_memory st))"
    unfolding e p using f by simp
  from eps rest show ?case by (rule conjI)
qed

lemma table_ok_fields [simp]:
  "table_ok (st\<lparr>iterations := i\<rparr>) = table_ok st"
  "table_ok (st\<lparr>epsilon := e\<rparr>) = table_ok st"
  by (simp_all add: table_ok_def)

lemma train_total:
  assumes "save_interval \<noteq> 0" and "table_ok st"
    and "\<forall>ep\<in>set episodes. \<exists>history final_rewards.
           ep = Inr (history, final_rewards) \<and> (\<forall>d\<in>set history. valid_decision d)"
  shows "\<exists>st'. train save_interval episodes st = Inr st' \<and> table_ok st'"
  using assms(2,3)
proof (induction episodes arbitrary: st)
  case Nil
  then show ?case by simp
next
  case (Cons ep eps)
  from Cons.prems(2) obtain history final_rewards where
    ep: "ep = Inr (history, final_rewards)" and v: "\<forall>d\<in>set history. valid_decision d"
    by auto
  let ?st = "st\<lparr>iterations := iterations st + 1\<rparr>"
  from Cons.prems(1) have "table_ok ?st" by simp
  from update_loop_regret[OF this v, of "player_reward_of ?st final_rewards"] obtain s where
    s: "update_loop (player_reward_of ?st final_rewards) history ?st = Inr s" "table_ok s"
    by blast
  then have c: "cfr_iteration ?st ep = Inr s"
    by (simp add: cfr_iteration_def ep update_regrets_alt)
  from s(2) have "table_ok (decay_once s)" by (simp add: decay_once_def)
  from Cons.IH[OF this] Cons.prems(2) obtain st' where
    "train save_interval eps (decay_once s) = Inr st'" "table_ok st'" by auto
  with c assms(1) show ?case by simp
qed

lemma sample_episodes_valid:
  "\<forall>ep\<in>set sample_episodes. \<exists>history final_rewards.
      ep = Inr (history, final_rewards) \<and> (\<forall>d\<in>set history. valid_decision d)"
  by (simp add: sample_episodes_def valid_first_decision valid_second_decision)

lemma deque_append_full:
  assumes "length (items q) = maxlen q" and "0 < maxlen q"
  shows "items (deque_append q x) = tl (items q) @ [x]"
    and "length (items (deque_append q x)) = maxlen q"
proof -
  from assms have "items q \<noteq> []" by auto
  with assms(1) show "items (deque_append q x) = tl (items q) @ [x]"
    by (simp add: deque_append_def Let_def)
  with assms show "length (items (deque_append q x)) = maxlen q" by simp
qed

section \<open>Pre-flop hand strength\<close>

text \<open>
  Claim C2. With two hole cards of valid ids (1 to 52) and fewer than three board cards
  (ids not above 0 are dropped before counting), \<open>get_strength\<close> returns exactly 0.9 for
  a pair (equal ranks), 0.7 for a suited connector (ranks differing by one, same suit),
  0.6 for an unsuited connector, 0.5 for two suited cards that are not connected and 0.4
  otherwise, whatever the evaluator and the order of the two cards. The rank of card id
  \<open>idx\<close> is \<open>(idx - 1) div 4\<close> and its suit \<open>(idx - 1) mod 4\<close>.
\<close>

theorem preflop_strength:
  assumes "1 \<le> h1" "h1 \<le> 52" "1 \<le> h2" "h2 \<le> 52"
    and "length (filter (\<lambda>i. 0 < i) board_indices) < 3"
  shows "get_strength ev [h1, h2] board_indices =
     (if card_rank h1 = card_rank h2 then 9 / 10
      else if \<bar>card_rank h1 - card_rank h2\<bar> = 1
        then (if card_suit h1 = card_suit h2 then 7 / 10 else 6 / 10)
      else if card_suit h1 = card_suit h2 then 5 / 10
      else 4 / 10)"
proof -
  from convert_card_valid[OF assms(1,2)] obtain c1 where
    c1: "convert_card h1 = Inr (Some c1)" "get_rank_int (Some c1) = Inr (card_rank h1)"
        "get_suit_int (Some c1) = Inr (2 ^ nat (3 - card_suit h1))" by blast
  from convert_card_valid[OF assms(3,4)] obtain c2 where
    c2: "convert_card h2 = Inr (Some c2)" "get_rank_int (Some c2) = Inr (card_rank h2)"
        "get_suit_int (Some c2) = Inr (2 ^ nat (3 - card_suit h2))" by blast
  from sequence_err_convert_card[of "filter (\<lambda>i. 0 < i) board_indices"] obtain board where
    board: "sequence_err (map convert_card (filter (\<lambda>i. 0 < i) board_indices)) = Inr board"
      "length board = length (filter (\<lambda>i. 0 < i) board_indices)" by blast
  have body: "get_strength_body ev [h1, h2] board_indices
      = estimate_preflop_strength [Some c1, Some c2]"
    using assms c1(1) c2(1) board by (simp add: get_strength_body_def)
  have suit: "((2::int) ^ nat (3 - card_suit h1) = 2 ^ nat (3 - card_suit h2))
      = (card_suit h1 = card_suit h2)"
    by (rule pow2_suit_eq) (simp_all add: card_suit_def)
  have "estimate_preflop_strength [Some c1, Some c2] = Inr
     (if card_rank h1 = card_rank h2 then 9 / 10
      else if \<bar>card_rank h1 - card_rank h2\<bar> = 1
        then (if card_suit h1 = card_suit h2 then 7 / 10 else 6 / 10)
      else if card_suit h1 = card_suit h2 then 5 / 10
      else 4 / 10)"
    using c1(2,3) c2(2,3) suit
    by (auto simp: estimate_preflop_strength_def py_index_def norm_index_def Let_def)
  with body show ?thesis by (simp add: get_strength_def)
qed

theorem preflop_strength_witness:
  "(1::int) \<le> 1 \<and> (3::int) \<le> 52 \<and> length (filter (\<lambda>i. 0 < i) ([]::int list)) < 3
   \<and> get_strength failing_evaluator [1, 3] [] = 9 / 10
   \<and> get_strength failing_evaluator [1, 52] [] = 4 / 10"
  using preflop_strength [of 1 3 "[]" failing_evaluator]
    preflop_strength [of 1 52 "[]" failing_evaluator]
  by (simp add: card_rank_def card_suit_def)

section \<open>Card ids out of range\<close>

text \<open>
  Claim C5, as the code has it. No exception is raised for a card id above 52:
  \<open>convert_card\<close> catches the \<^verbatim>\<open>IndexError\<close> of its own table lookup, logs it and
  returns \<^verbatim>\<open>None\<close>. When such an id is among the hole cards and the board has fewer
  than three cards, the pre-flop estimate raises \<^verbatim>\<open>TypeError\<close> on the \<^verbatim>\<open>None\<close>
  card, and it is \<open>get_strength\<close> itself, not its caller, that catches the exception and
  returns the strength 0.0.
\<close>

theorem invalid_card_strength:
  assumes "52 < idx" and "idx \<in> set hole_indices"
    and "length (filter (\<lambda>i. 0 < i) board_indices) < 3"
  shows "convert_card idx = Inr None
       \<and> get_strength_body ev hole_indices board_indices = Inl TypeError
       \<and> get_strength ev hole_indices board_indices = 0"
proof -
  have conv: "convert_card idx = Inr None" using assms(1) by (rule convert_card_above)
  obtain hole where hole: "sequence_err (map convert_card (filter (\<lambda>i. 0 < i) hole_indices)) = Inr hole"
    using sequence_err_convert_card by blast
  obtain board where board: "sequence_err (map convert_card (filter (\<lambda>i. 0 < i) board_indices)) = Inr board"
    "length board = length (filter (\<lambda>i. 0 < i) board_indices)"
    using sequence_err_convert_card by blast
  from assms(1,2) have "idx \<in> set (filter (\<lambda>i. 0 < i) hole_indices)" by simp
  then have "Inr None \<in> set (map convert_card (filter (\<lambda>i. 0 < i) hole_indices))"
    using conv by (metis image_eqI list.set_map)
  with sequence_err_Inr[OF hole] have "None \<in> set hole" by auto
  then have "estimate_preflop_strength hole = Inl TypeError"
    by (simp add: estimate_preflop_strength_def sequence_err_ranks_None)
  with hole board assms(3) have body: "get_strength_body ev hole_indices board_indices = Inl TypeError"
    by (simp add: get_strength_body_def)
  with conv show ?thesis by (simp add: get_strength_def)
qed

theorem invalid_card_strength_witness:
  "(52::int) < 53 \<and> (53::int) \<in> set [53, 1] \<and> convert_card 53 = Inr None
   \<and> get_strength_body failing_evaluator [53, 1] [] = Inl TypeError
   \<and> get_strength failing_evaluator [53, 1] [] = 0"
  using invalid_card_strength [of 53 "[53, 1]" "[]" failing_evaluator] by simp

text \<open>
  Claim C5 as stated fails at card id 53: the conversion returns \<^verbatim>\<open>None\<close> instead of
  failing, and the evaluator returns the strength 0.0 to its caller instead of an error.
\<close>

theorem invalid_card_counterexample:
  "convert_card 53 = Inr None \<and> get_strength failing_evaluator [53, 1] [] = 0"
  by (simp add: get_strength_def get_strength_body_def convert_card_def Let_def py_index_def
      norm_index_def ranks_def suits_def Card_new_def dict_get_def CHAR_RANK_TO_INT_RANK_def
      CHAR_SUIT_TO_INT_SUIT_def STR_RANKS_def PRIMES_def estimate_preflop_strength_def
      get_rank_int_def)

section \<open>Malformed observations\<close>

text \<open>
  Claim C4, as the code has it. \<open>encode_state\<close> raises, with \<^verbatim>\<open>IndexError\<close>, when
  the observation has fewer than 54 entries. An observation of 54 entries or more is
  always encoded, without any check of its length or of the number of hole cards; with
  no hole card in the 52-entry mask and fewer than three board cards the encoded hand
  strength is 0.0.
\<close>

theorem encode_state_malformed:
  "(length observation < 54 \<longrightarrow> encode_state ev b observation = Inl IndexError)
   \<and> (54 \<le> length observation \<longrightarrow> (\<exists>s p. encode_state ev b observation = Inr (s, p)))
   \<and> (54 \<le> length observation \<and> (\<forall>i<52. observation ! i \<noteq> 1)
        \<and> length (filter (\<lambda>i. 0 < i) b) < 3 \<longrightarrow>
        encode_state ev b observation
          = Inr (0, py_round (100 - (observation ! 52 + observation ! 53)) 1))"
proof (intro conjI impI)
  assume "length observation < 54"
  then show "encode_state ev b observation = Inl IndexError" by (rule encode_state_short)
next
  assume "54 \<le> length observation"
  then show "\<exists>s p. encode_state ev b observation = Inr (s, p)"
    by (simp add: encode_state_long)
next
  assume a: "54 \<le> length observation \<and> (\<forall>i<52. observation ! i \<noteq> 1)
        \<and> length (filter (\<lambda>i. 0 < i) b) < 3"
  then have "filter (\<lambda>i. take 52 observation ! i = 1) [0..<length (take 52 observation)] = []"
    by (auto simp: filter_empty_conv)
  with a show "encode_state ev b observation
          = Inr (0, py_round (100 - (observation ! 52 + observation ! 53)) 1)"
    by (simp add: encode_state_long get_strength_no_hole round_half_even_0)
qed

theorem encode_state_malformed_witness:
  "length ([] :: real list) < 54
   \<and> encode_state failing_evaluator [] [] = Inl IndexError
   \<and> 54 \<le> length (replicate 54 (0::real))
   \<and> (\<exists>s p. encode_state failing_evaluator [] (replicate 54 0) = Inr (s, p))
   \<and> encode_state failing_evaluator [] (replicate 54 0) = Inr (0, py_round 100 1)"
  using encode_state_malformed [of "[]" failing_evaluator "[]"]
    encode_state_malformed [of "replicate 54 0" failing_evaluator "[]"]
  by simp

text \<open>
  Claim C4 as stated fails on two malformed observations. The first has 54 entries and
  no hole card: it is encoded as strength 0.0 and pot 100. The second has 57 entries
  (three too many), hole cards 1 and 3 and stacks 40 and 50: it is encoded as strength
  0.9 and pot 10.
\<close>

theorem encode_state_counterexample:
  "encode_state failing_evaluator [] (replicate 54 0) = Inr (0, 100)
   \<and> encode_state failing_evaluator [] ([1, 0, 1] @ replicate 49 0 @ [40, 50, 7, 7, 7])
       = Inr (9 / 10, 10)"
proof -
  have a: "encode_state failing_evaluator [] (replicate 54 0) = Inr (0, 100)"
    by (simp add: encode_state_long get_strength_no_hole py_round_def round_half_even_def)
  let ?obs = "[1, 0, 1] @ replicate 49 0 @ [40, 50, 7, 7, 7] :: real list"
  have take: "take 52 ?obs = [1, 0, 1] @ replicate 49 0" by simp
  have "[0..<3 + 49] = [0..<3] @ [3..<3 + 49]"
    by (rule upt_add_eq_append) simp
  moreover have "[0..<3] = [0, 1, 2::nat]"
    by code_simp
  ultimately have upt: "[0..<52] = [0, 1, 2] @ [3..<52]"
    by simp
  have "filter (\<lambda>i. ([1, 0, 1] @ replicate 49 0 :: real list) ! i = 1) [3..<52] = []"
    by (auto simp: filter_empty_conv nth_append)
  then have "filter (\<lambda>i. ([1, 0, 1] @ replicate 49 0 :: real list) ! i = 1) [0..<52] = [0, 2]"
    unfolding upt by simp
  then have hole: "map (\<lambda>i. int i + 1)
      (filter (\<lambda>i. take 52 ?obs ! i = 1) [0..<length (take 52 ?obs)]) = [1, 3]"
    by simp
  have gs: "get_strength failing_evaluator [1, 3] [] = 9 / 10"
    by (simp add: get_strength_def get_strength_body_def convert_card_def Let_def py_index_def
      norm_index_def ranks_def suits_def Card_new_def dict_get_def CHAR_RANK_TO_INT_RANK_def
      CHAR_SUIT_TO_INT_SUIT_def STR_RANKS_def PRIMES_def estimate_preflop_strength_def
      get_rank_int_def get_suit_int_def)
  have "encode_state failing_evaluator [] ?obs =
     Inr (py_round (get_strength failing_evaluator
            (map (\<lambda>i. int i + 1)
              (filter (\<lambda>i. take 52 ?obs ! i = 1) [0..<length (take 52 ?obs)])) []) 2,
          py_round (100 - (?obs ! 52 + ?obs ! 53)) 1)"
    by (rule encode_state_long) simp
  then have "encode_state failing_evaluator [] ?obs =
     Inr (py_round (9 / 10) 2, py_round (100 - (?obs ! 52 + ?obs ! 53)) 1)"
    unfolding hole gs .
  then have "encode_state failing_evaluator [] ?obs = Inr (9 / 10, 10)"
    by (simp add: nth_append py_round_def round_half_even_def)
  with a show ?thesis by simp
qed

section \<open>The masked action distribution\<close>

text \<open>
  Claim C3. For a legal-action mask of zeros and ones with at least one legal action, and
  a network output of the same length, \<open>get_action_probs\<close> returns a vector that is 0 on
  every illegal action and whose entries sum to 1 (exactly, in real arithmetic, so within
  any tolerance), whatever the state and the network output.
\<close>

theorem action_probs_distribution:
  assumes "set legal_mask \<subseteq> {0, 1}" and "\<exists>m\<in>set legal_mask. m \<noteq> 0"
    and "length (net state) = length legal_mask"
  shows "\<exists>dist. get_action_probs net state legal_mask = Inr dist
           \<and> length dist = length legal_mask
           \<and> (\<forall>i<length legal_mask. legal_mask ! i = 0 \<longrightarrow> dist ! i = 0)
           \<and> sum_list dist = 1"
proof (cases "sum_list (map2 (*) (net state) legal_mask) = 0")
  case True
  from mask_sum_pos[OF assms(1,2)] have pos: "sum_list legal_mask \<noteq> 0" by simp
  with True have "get_action_probs net state legal_mask
      = Inr (map (\<lambda>m. m / sum_list legal_mask) legal_mask)"
    by (simp add: get_action_probs_cases[of legal_mask net state, OF assms(2,3)] np_div_def)
  moreover have "sum_list (map (\<lambda>m. m / sum_list legal_mask) legal_mask) = 1"
    using pos by (simp add: sum_list_divide)
  ultimately show ?thesis by simp
next
  case False
  let ?lp = "map2 (*) (net state) legal_mask"
  from False have "get_action_probs net state legal_mask
      = Inr (map (\<lambda>x. x / sum_list ?lp) ?lp)"
    by (simp add: get_action_probs_cases[of legal_mask net state, OF assms(2,3)])
  moreover have "sum_list (map (\<lambda>x. x / sum_list ?lp) ?lp) = 1"
    using False by (subst sum_list_divide) simp
  moreover have "\<forall>i<length legal_mask. legal_mask ! i = 0 \<longrightarrow> map (\<lambda>x. x / sum_list ?lp) ?lp ! i = 0"
    using assms(3) by simp
  ultimately show ?thesis using assms(3) by simp
qed

theorem action_probs_distribution_witness:
  "set [0, 1, 1, 0, 0 :: real] \<subseteq> {0, 1} \<and> (\<exists>m\<in>set [0, 1, 1, 0, 0 :: real]. m \<noteq> 0)
   \<and> (\<exists>dist. get_action_probs (\<lambda>_. [1/2, 1/4, 1/8, 1/16, 1/16]) [9/10, 3] [0, 1, 1, 0, 0] = Inr dist
         \<and> length dist = 5 \<and> dist ! 0 = 0 \<and> sum_list dist = 1)"
  using action_probs_distribution [of "[0, 1, 1, 0, 0]" "\<lambda>_. [1/2, 1/4, 1/8, 1/16, 1/16]" "[9/10, 3]"]
  by auto

section \<open>The fallback of the action distribution\<close>





section \<open>The regret update of one decision\<close>



section \<open>Buffer entries and later updates\<close>

text \<open>
  Claim C7 does not hold of the code: the buffer entry is a reference to the regret array
  of its state key, and a later update on the same key changes that array in place.
  The theorem runs \<open>update_regrets\<close> from the initial trainer on one decision and on two
  decisions with the same state key. The entry pushed by the first decision (index 0)
  reads the cumulative regret of the key at the push, but after the second decision the
  same entry reads the new cumulative regret, which differs from what it held before.
\<close>

theorem buffer_entry_aliased:
  "\<exists>s1 s2. update_regrets init [first_decision] sample_rewards = Inr s1
         \<and> update_regrets init [first_decision, second_decision] sample_rewards = Inr s2
         \<and> items (advantage_memory s1) = [(sample_state, 0)]
         \<and> items (advantage_memory s2) = [(sample_state, 0), (sample_state, 0)]
         \<and> buffer_regret s1 0 = regret_of s1 sample_state
         \<and> buffer_regret s2 0 = regret_of s2 sample_state
         \<and> buffer_regret s2 0 \<noteq> buffer_regret s1 0"
proof -
  let ?r = "player_reward_of init sample_rewards"
  let ?s1 = "after_decision ?r init first_decision"
  let ?s2 = "after_decision ?r ?s1 second_decision"
  have r: "?r = 2" by (simp add: player_reward_of_def sample_rewards_def init_def)
  have ok1: "table_ok ?s1"
    using table_ok_init by (rule after_table_ok) (simp add: first_decision_def)
  have u1: "update_decision ?r init first_decision = Inr ?s1"
    using valid_first_decision table_ok_init by (rule update_decision_valid)
  have u2: "update_decision ?r ?s1 second_decision = Inr ?s2"
    using valid_second_decision ok1 by (rule update_decision_valid)
  have k1 [simp]: "state_key_of (state_tensor first_decision) = sample_state"
    by (simp add: first_decision_def sample_key)
  have k2 [simp]: "state_key_of (state_tensor second_decision) = sample_state"
    by (simp add: second_decision_def sample_key)
  have a1: "fst (regrets_entry init sample_state) = 0"
    by (simp add: entry_addr_alt init_def)
  have c1: "cumulative_regrets ?s1 sample_state = Some 0"
    by (simp add: after_regrets a1)
  have a2: "fst (regrets_entry ?s1 sample_state) = 0"
    by (simp add: entry_addr_alt c1)
  have im: "advantage_memory init = \<lparr>items = [], maxlen = 1000000\<rparr>"
    by (simp add: init_def)
  have t1: "state_tensor first_decision = sample_state"
    by (simp add: first_decision_def)
  have t2: "state_tensor second_decision = sample_state"
    by (simp add: second_decision_def)
  have m1': "advantage_memory ?s1 = \<lparr>items = [(sample_state, 0)], maxlen = 1000000\<rparr>"
    by (simp add: after_memory a1 t1 sample_key im deque_append_def)
  then have m1: "items (advantage_memory ?s1) = [(sample_state, 0)]"
    by simp
  have m2: "items (advantage_memory ?s2) = [(sample_state, 0), (sample_state, 0)]"
    by (simp add: after_memory[of _ ?s1] a2 t2 sample_key m1' deque_append_def)
  have b1: "buffer_regret ?s1 0 = regret_of ?s1 sample_state"
    by (simp add: buffer_regret_def m1 regret_of_alt after_regrets a1)
  have b2: "buffer_regret ?s2 0 = regret_of ?s2 sample_state"
    by (simp add: buffer_regret_def m2 regret_of_alt after_regrets a1 a2)
  have r2: "regret_of ?s2 sample_state = map2 (+) (regret_of ?s1 sample_state)
      (immediate_regret_spec (counterfactual_value_spec ?r second_decision)
         (strategy second_decision) (nat (action second_decision)))"
    by (simp add: after_regret_of[OF ok1])
  have l1: "length (regret_of ?s1 sample_state) = 5"
    using ok1 by (rule regret_of_length)
  have "regret_of ?s2 sample_state ! 1 \<noteq> regret_of ?s1 sample_state ! 1"
    unfolding r2 using l1
    by (simp add: immediate_regret_spec_nth counterfactual_value_spec_def r second_decision_def)
  then have ne: "buffer_regret ?s2 0 \<noteq> buffer_regret ?s1 0"
    unfolding b1 b2 by auto
  have "update_regrets init [first_decision] sample_rewards = Inr ?s1"
    by (simp add: update_regrets_alt u1)
  moreover have "update_regrets init [first_decision, second_decision] sample_rewards = Inr ?s2"
    by (simp add: update_regrets_alt u1 u2)
  ultimately show ?thesis using m1 m2 b1 b2 ne by blast
qed

section \<open>Replaying the regret update\<close>

text \<open>
  Claim C10. For every trajectory of well-formed decisions and every final rewards,
  \<open>update_regrets\<close> run from any two well-formed trainers with the same training agent
  (in particular twice from the same one) returns, and the change of the cumulative
  regret of every state key is the same in both runs: it equals \<open>regret_delta\<close>, which is
  computed from the trajectory and the training player's reward alone and reads neither
  the table nor any counter.
\<close>

theorem regret_update_replay:
  assumes "table_ok st" and "table_ok st'" and "training_agent st' = training_agent st"
    and "\<forall>d\<in>set history. valid_decision d"
  shows "\<exists>t t'. update_regrets st history final_rewards = Inr t
           \<and> update_regrets st' history final_rewards = Inr t'
           \<and> (\<forall>k. map2 (-) (regret_of t k) (regret_of st k)
                    = regret_delta (player_reward_of st final_rewards) history k
                 \<and> map2 (-) (regret_of t' k) (regret_of st' k)
                    = regret_delta (player_reward_of st final_rewards) history k)"
proof -
  let ?r = "player_reward_of st final_rewards"
  from assms(3) have r': "player_reward_of st' final_rewards = ?r"
    by (simp add: player_reward_of_def)
  from update_loop_regret[OF assms(1,4), of ?r] obtain t where
    t: "update_loop ?r history st = Inr t"
       "\<forall>k. regret_of t k = map2 (+) (regret_of st k) (regret_delta ?r history k)" by blast
  from update_loop_regret[OF assms(2,4), of ?r] obtain t' where
    t': "update_loop ?r history st' = Inr t'"
        "\<forall>k. regret_of t' k = map2 (+) (regret_of st' k) (regret_delta ?r history k)" by blast
  have "map2 (-) (regret_of t k) (regret_of st k) = regret_delta ?r history k" for k
    using t(2) by (simp add: map2_sub_add regret_of_length[OF assms(1)])
  moreover have "map2 (-) (regret_of t' k) (regret_of st' k) = regret_delta ?r history k" for k
    using t'(2) by (simp add: map2_sub_add regret_of_length[OF assms(2)])
  ultimately show ?thesis
    using t(1) t'(1) r' by (simp add: update_regrets_alt)
qed

theorem regret_update_replay_witness:
  "table_ok init \<and> table_ok seeded_trainer
   \<and> training_agent seeded_trainer = training_agent init
   \<and> (\<exists>t t'. update_regrets init [first_decision, second_decision] sample_rewards = Inr t
           \<and> update_regrets seeded_trainer [first_decision, second_decision] sample_rewards = Inr t'
           \<and> (\<forall>k. map2 (-) (regret_of t k) (regret_of init k)
                    = regret_delta (player_reward_of init sample_rewards)
                        [first_decision, second_decision] k
                 \<and> map2 (-) (regret_of t' k) (regret_of seeded_trainer k)
                    = regret_delta (player_reward_of init sample_rewards)
                        [first_decision, second_decision] k))"
proof -
  have ta: "training_agent seeded_trainer = training_agent init"
    by (simp add: seeded_trainer_def)
  have h: "\<forall>d\<in>set [first_decision, second_decision]. valid_decision d"
    by (simp add: valid_first_decision valid_second_decision)
  from regret_update_replay [OF table_ok_init table_ok_seeded ta h, of sample_rewards]
  show ?thesis using table_ok_init table_ok_seeded ta by blast
qed

section \<open>The decay of the exploration rate\<close>



section \<open>The capacity of the replay buffer\<close>

text \<open>
  Claim C9. The replay buffer is created with capacity \<open>10^6\<close>; after any run of \<open>train\<close>
  from the initial trainer the capacity is unchanged and the buffer holds at most
  \<open>10^6\<close> entries. The regret update adds to the buffer by \<open>deque_append\<close> only, which
  never makes a buffer exceed its capacity; on a buffer that is at its capacity it drops
  exactly the oldest entry (the head), keeps the others in order, puts the new entry last
  and leaves the size at the capacity.
\<close>

theorem replay_buffer_capacity:
  "maxlen (advantage_memory init) = 1000000
   \<and> (train save_interval episodes init = Inr st \<longrightarrow>
        maxlen (advantage_memory st) = 1000000
        \<and> length (items (advantage_memory st)) \<le> 1000000)
   \<and> (update_decision r s d = Inr s' \<longrightarrow>
        advantage_memory s' = deque_append (advantage_memory s)
           (state_tensor d, fst (regrets_entry s (state_key_of (state_tensor d)))))
   \<and> (length (items q) \<le> maxlen q \<longrightarrow> length (items (deque_append q x)) \<le> maxlen q)
   \<and> (length (items q) = maxlen q \<and> 0 < maxlen q \<longrightarrow>
        items (deque_append q x) = tl (items q) @ [x]
        \<and> length (items (deque_append q x)) = maxlen q
        \<and> maxlen (deque_append q x) = maxlen q)"
proof -
  have im: "maxlen (advantage_memory init) = 1000000" "items (advantage_memory init) = []"
    by (simp_all add: init_def)
  have tr: "maxlen (advantage_memory st) = 1000000 \<and> length (items (advantage_memory st)) \<le> 1000000"
    if "train save_interval episodes init = Inr st"
    using train_frame[OF that] im by simp
  have up: "advantage_memory s' = deque_append (advantage_memory s)
           (state_tensor d, fst (regrets_entry s (state_key_of (state_tensor d))))"
    if "update_decision r s d = Inr s'"
    using update_decision_frame[OF that] by simp
  show ?thesis
    using im(1) tr up deque_append_bounded[of q x] deque_append_full[of q x]
    by (simp del: One_nat_def)
qed

theorem replay_buffer_capacity_witness:
  "(\<exists>st. train 1000 sample_episodes init = Inr st
        \<and> maxlen (advantage_memory st) = 1000000
        \<and> length (items (advantage_memory st)) \<le> 1000000)
   \<and> (\<exists>s'. update_decision 2 init first_decision = Inr s'
        \<and> advantage_memory s' = deque_append (advantage_memory init)
             (state_tensor first_decision,
              fst (regrets_entry init (state_key_of (state_tensor first_decision)))))
   \<and> length (items \<lparr>items = replicate 1000000 (sample_state, 0::nat), maxlen = 1000000\<rparr>) = 1000000
   \<and> items (deque_append \<lparr>items = replicate 1000000 (sample_state, 0::nat), maxlen = 1000000\<rparr>
        (sample_state, 1))
       = tl (replicate 1000000 (sample_state, 0)) @ [(sample_state, 1)]
   \<and> length (items (deque_append \<lparr>items = replicate 1000000 (sample_state, 0::nat), maxlen = 1000000\<rparr>
        (sample_state, 1))) = 1000000"
proof -
  let ?q = "\<lparr>items = replicate 1000000 (sample_state, 0::nat), maxlen = 1000000\<rparr>"
  from train_total[OF _ table_ok_init sample_episodes_valid, of 1000] obtain st where
    st: "train 1000 sample_episodes init = Inr st" by auto
  have u: "update_decision 2 init first_decision = Inr (after_decision 2 init first_decision)"
    using valid_first_decision table_ok_init by (rule update_decision_valid)
  have q: "length (items ?q) = maxlen ?q \<and> 0 < maxlen ?q" by simp
  from replay_buffer_capacity
    [of 1000 sample_episodes st 2 init first_decision "after_decision 2 init first_decision"
        ?q "(sample_state, 1)"] st u q
  show ?thesis by simp
qed

end
